theory Spec2Isabelle
  imports Complex_Main
begin

section \<open>The ABC rejection sampler of \<open>abc_interact.ipynb\<close>\<close>

text \<open>
  The notebook defines \<open>distance\<close>, \<open>lnprior\<close>, \<open>propose_step\<close>,
  \<open>simulate_dataset\<close> and \<open>rejection_sampler\<close>. They are embedded here as HOL
  functions.

  \<^item> numpy's float64 values are modelled as \<^typ>\<open>real\<close>; the value returned by a prior
    (\<open>0\<close> or \<open>-np.inf\<close>) has its own type \<open>lnp\<close>, so that \<open>np.isfinite\<close> is a
    real test.
  \<^item> Python's unbounded integers (\<open>accepted_steps\<close>, \<open>total_steps\<close>, \<open>n_steps\<close>)
    are \<^typ>\<open>int\<close>.
  \<^item> The ambient random source \<open>np.random\<close> is an explicit stream of standard-normal
    draws that is threaded through every function that consumes it.
  \<^item> Every exception is a value \<open>Inl e\<close> of a sum type.
  \<^item> The \<open>while\<close> loop may run forever: it is a partial function into \<open>option\<close>, where
    \<open>None\<close> stands for a run that never returns.
  \<^item> \<open>scipy.stats.anderson_ksamp\<close> is third-party code; it is a field of the
    configuration, as are the pluggable \<open>prior\<close> and \<open>simulate_y\<close>.
\<close>

subsection \<open>Errors, floats and the random source\<close>

datatype error =
    DimensionMismatch   \<comment> \<open>ValueError of the tuple unpacking \<open>a, b, c, d = theta\<close>\<close>
  | NegativeDimensions  \<comment> \<open>ValueError of numpy for a negative size\<close>
  | ShapeMismatch       \<comment> \<open>ValueError of numpy: could not broadcast into the row\<close>
  | IndexError
  | ZeroDivisionError
  | CollaboratorError   \<comment> \<open>any other exception raised by a pluggable collaborator\<close>

datatype lnp = Finite real | NegInf | PosInf | NaN

fun isfinite :: "lnp \<Rightarrow> bool" where
  "isfinite (Finite r) = True"
| "isfinite NegInf = False"
| "isfinite PosInf = False"
| "isfinite NaN = False"

type_synonym rng = "nat \<Rightarrow> real"

text \<open>\<open>np.random.randn(n)\<close>: the next \<open>n\<close> draws, and the source advanced by \<open>n\<close>.\<close>

definition randn :: "nat \<Rightarrow> rng \<Rightarrow> real list \<times> rng" where
  "randn n g = (map g [0..<n], \<lambda>i. g (i + n))"

text \<open>Python's \<open>int(r)\<close> on a float truncates toward zero.\<close>

definition py_int :: "real \<Rightarrow> int" where
  "py_int r = (if 0 \<le> r then \<lfloor>r\<rfloor> else \<lceil>r\<rceil>)"

subsection \<open>The collaborators of the notebook\<close>

text \<open>\<open>x = np.linspace(0, 1, 500)\<close>; the code only uses \<open>len(x)\<close>.\<close>

definition len_x :: nat where
  "len_x = 500"

text \<open>
  \<open>distance(y_obs, y_sim) = anderson_ksamp([y_sim, y_obs]).statistic + 1.31\<close>, with the
  library function as first argument.
\<close>

definition distance ::
  "(real list list \<Rightarrow> error + real) \<Rightarrow> real list \<Rightarrow> real list \<Rightarrow> error + real" where
  "distance ad_stat y_obs y_sim =
     (case ad_stat [y_sim, y_obs] of
        Inl e \<Rightarrow> Inl e
      | Inr a2 \<Rightarrow> Inr (a2 + 131 / 100))"

definition lnprior :: "real list \<Rightarrow> error + lnp" where
  "lnprior theta =
     (case theta of
        [mean1, mean2, std, fraction] \<Rightarrow>
          if -10 < mean1 \<and> mean1 < 20 \<and> -10 < mean2 \<and> mean2 < 20
             \<and> 0 < std \<and> std < 10 \<and> 0 \<le> fraction \<and> fraction \<le> 1
          then Inr (Finite 0)
          else Inr NegInf
      | _ \<Rightarrow> Inl DimensionMismatch)"

definition propose_step :: "real list \<Rightarrow> real \<Rightarrow> rng \<Rightarrow> real list \<times> rng" where
  "propose_step theta scale g =
     (let (z, g') = randn (length theta) g
      in (map2 (\<lambda>t r. t + scale * r) theta z, g'))"

definition simulate_dataset :: "real list \<Rightarrow> rng \<Rightarrow> error + (real list \<times> rng)" where
  "simulate_dataset theta g =
     (case theta of
        [mean1, mean2, std, fraction] \<Rightarrow>
          (let n1 = py_int ((1 - fraction) * real len_x)
           in if n1 < 0 then Inl NegativeDimensions
              else
                let (z1, g1) = randn (nat n1) g;
                    n2 = py_int (fraction * real len_x)
                in if n2 < 0 then Inl NegativeDimensions
                   else
                     let (z2, g2) = randn (nat n2) g1
                     in Inr (map (\<lambda>r. mean1 + std * r) z1 @ map (\<lambda>r. mean2 + std * r) z2, g2))
      | _ \<Rightarrow> Inl DimensionMismatch)"

text \<open>
  The observations of the notebook, from the same two-component construction:
  \<open>true_mean1 = pi\<close>, \<open>true_mean2 = 3 pi\<close>, \<open>true_std = 1\<close>, \<open>true_fraction = 0.3\<close>.
\<close>

definition make_y_obs :: "rng \<Rightarrow> real list \<times> rng" where
  "make_y_obs g =
     (let (z1, g1) = randn (nat (py_int ((1 - 3 / 10) * real len_x))) g;
          (z2, g2) = randn (nat (py_int (3 / 10 * real len_x))) g1
      in (map (\<lambda>r. pi + 1 * r) z1 @ map (\<lambda>r. 3 * pi + 1 * r) z2, g2))"

subsection \<open>The sampler\<close>

datatype out = Progress int int | AcceptanceRate real

record config =
  h :: real
  n_steps :: int
  scale :: real
  quiet :: bool
  y_obs :: "real list"
  prior :: "real list \<Rightarrow> error + lnp"
  simulate_y :: "real list \<Rightarrow> rng \<Rightarrow> error + (real list \<times> rng)"
  anderson_ksamp :: "real list list \<Rightarrow> error + real"

record sampler_state =
  theta :: "real list"
  accepted_steps :: int
  total_steps :: int
  samples :: "real list list"
  printed :: "int set"
  rng :: rng
  stdout :: "out list"

text \<open>
  \<open>samples[i, :] = v\<close> on a two-dimensional array: the index may be negative (it then
  counts from the end), an index out of range raises, and \<open>v\<close> must have the length of
  the row or length one (it is then broadcast).
\<close>

definition set_row :: "real list list \<Rightarrow> int \<Rightarrow> real list \<Rightarrow> error + real list list" where
  "set_row a i v =
     (let n = int (length a)
      in if i < - n \<or> n \<le> i then Inl IndexError
         else
           let j = nat (if i < 0 then i + n else i);
               ncols = length (a ! j)
           in if length v = ncols then Inr (a[j := v])
              else if length v = 1 then Inr (a[j := replicate ncols (v ! 0)])
              else Inl ShapeMismatch)"

text \<open>The progress bar at the head of the loop body.\<close>

definition progress_bar :: "config \<Rightarrow> sampler_state \<Rightarrow> sampler_state" where
  "progress_bar c st =
     (if \<not> quiet c then
        if accepted_steps st mod 1000 = 0 \<and> accepted_steps st \<notin> printed st
        then st\<lparr>printed := insert (accepted_steps st) (printed st),
                stdout := stdout st @ [Progress (accepted_steps st) (n_steps c)]\<rparr>
        else st
      else st)"

text \<open>One execution of the body of \<open>while accepted_steps < n_steps\<close>.\<close>

definition loop_body :: "config \<Rightarrow> sampler_state \<Rightarrow> error + sampler_state" where
  "loop_body c st0 =
     (let st = progress_bar c st0;
          (new_theta, g1) = propose_step (theta st) (scale c) (rng st)
      in case prior c new_theta of
           Inl e \<Rightarrow> Inl e
         | Inr lp \<Rightarrow>
             if isfinite lp then
               (case simulate_y c new_theta g1 of
                  Inl e \<Rightarrow> Inl e
                | Inr (y_sim, g2) \<Rightarrow>
                    (case distance (anderson_ksamp c) (y_obs c) y_sim of
                       Inl e \<Rightarrow> Inl e
                     | Inr dist_val \<Rightarrow>
                         let st1 = st\<lparr>rng := g2, total_steps := total_steps st + 1\<rparr>
                         in if dist_val \<le> h c then
                              (case set_row (samples st1) (accepted_steps st1) new_theta of
                                 Inl e \<Rightarrow> Inl e
                               | Inr smp \<Rightarrow>
                                   Inr (st1\<lparr>theta := new_theta, samples := smp,
                                            accepted_steps := accepted_steps st1 + 1\<rparr>))
                            else Inr st1))
             else Inr (st\<lparr>rng := g1\<rparr>))"

partial_function (option) sampling_loop ::
  "config \<Rightarrow> sampler_state \<Rightarrow> (error + sampler_state) option" where
  "sampling_loop c st =
     (if accepted_steps st < n_steps c then
        (case loop_body c st of
           Inl e \<Rightarrow> Some (Inl e)
         | Inr st' \<Rightarrow> sampling_loop c st')
      else Some (Inr st))"

text \<open>The bookkeeping variables before the loop.\<close>

definition init_state :: "config \<Rightarrow> real list \<Rightarrow> rng \<Rightarrow> sampler_state" where
  "init_state c theta0 g0 =
     \<lparr>theta = theta0, accepted_steps = 0, total_steps = 0,
      samples = replicate (nat (n_steps c)) (replicate (length theta0) 0),
      printed = {}, rng = g0, stdout = []\<rparr>"

text \<open>
  \<open>rejection_sampler\<close>: \<open>np.zeros\<close> refuses a negative \<open>n_steps\<close>, the loop runs, the
  acceptance rate is printed (a division of two Python integers, which raises on a zero
  divisor), and \<open>samples\<close> is returned. The result pairs the returned array with the
  final state, which holds what was printed.
\<close>

definition rejection_sampler ::
  "config \<Rightarrow> real list \<Rightarrow> rng \<Rightarrow> (error + (real list list \<times> sampler_state)) option" where
  "rejection_sampler c theta0 g0 =
     (if n_steps c < 0 then Some (Inl NegativeDimensions)
      else
        case sampling_loop c (init_state c theta0 g0) of
          None \<Rightarrow> None
        | Some (Inl e) \<Rightarrow> Some (Inl e)
        | Some (Inr st) \<Rightarrow>
            if total_steps st = 0 then Some (Inl ZeroDivisionError)
            else Some (Inr (samples st,
                   st\<lparr>stdout := stdout st @
                     [AcceptanceRate (real_of_int (accepted_steps st) / real_of_int (total_steps st))]\<rparr>)))"

subsection \<open>Observing a run\<close>

text \<open>
  The definitions below do not occur in the notebook. They name what the properties of the
  sampler talk about: the candidate proposed in an iteration, whether it passes the prior
  filter, whether it passes the filter and has a distance of at most \<open>h\<close>, the state
  after at most \<open>k\<close> executions of the loop body, and the candidates accepted so far,
  in the order of their acceptance.
\<close>

definition candidate :: "config \<Rightarrow> sampler_state \<Rightarrow> real list" where
  "candidate c st = fst (propose_step (theta st) (scale c) (rng st))"

definition prior_valid :: "config \<Rightarrow> sampler_state \<Rightarrow> bool" where
  "prior_valid c st =
     (case prior c (candidate c st) of Inl e \<Rightarrow> False | Inr lp \<Rightarrow> isfinite lp)"

fun iterate_loop :: "config \<Rightarrow> nat \<Rightarrow> sampler_state \<Rightarrow> error + sampler_state" where
  "iterate_loop c 0 st = Inr st"
| "iterate_loop c (Suc k) st =
     (if accepted_steps st < n_steps c then
        (case loop_body c st of
           Inl e \<Rightarrow> Inl e
         | Inr st' \<Rightarrow> iterate_loop c k st')
      else Inr st)"

fun finished :: "config \<Rightarrow> error + sampler_state \<Rightarrow> bool" where
  "finished c (Inl e) = True"
| "finished c (Inr st) = (\<not> accepted_steps st < n_steps c)"

definition accepts :: "config \<Rightarrow> sampler_state \<Rightarrow> bool" where
  "accepts c st =
     (case propose_step (theta st) (scale c) (rng st) of
        (new_theta, g1) \<Rightarrow>
          (case prior c new_theta of
             Inl e \<Rightarrow> False
           | Inr lp \<Rightarrow>
               isfinite lp \<and>
               (case simulate_y c new_theta g1 of
                  Inl e \<Rightarrow> False
                | Inr (y_sim, g2) \<Rightarrow>
                    (case distance (anderson_ksamp c) (y_obs c) y_sim of
                       Inl e \<Rightarrow> False
                     | Inr d \<Rightarrow> d \<le> h c))))"

fun accepted_thetas :: "config \<Rightarrow> nat \<Rightarrow> sampler_state \<Rightarrow> real list list" where
  "accepted_thetas c 0 st = []"
| "accepted_thetas c (Suc k) st =
     (if accepted_steps st < n_steps c then
        (case loop_body c st of
           Inl e \<Rightarrow> []
         | Inr st' \<Rightarrow>
             (if accepts c st then [candidate c st] else []) @ accepted_thetas c k st')
      else [])"

subsection \<open>A small run\<close>

text \<open>
  A configuration on which the sampler can be evaluated by hand: one-dimensional vectors,
  a prior that admits vectors below 10, a simulator that returns the vector itself and a
  statistic that returns the first simulated value, so that the distance of a candidate
  \<open>[v]\<close> is \<open>v + 1.31\<close>. From \<open>[0]\<close> the four proposals are \<open>[1]\<close> (accepted,
  its distance is exactly \<open>h\<close>), \<open>[51]\<close> (outside the prior), \<open>[6]\<close> (too far) and
  \<open>[0]\<close> (accepted).
\<close>

definition demo_rng :: rng where
  "demo_rng = (\<lambda>i. if i = 1 then 50 else if i = 2 then 5 else if i = 3 then -1 else 1)"

definition demo_config :: config where
  "demo_config =
     \<lparr>h = 231 / 100, n_steps = 2, scale = 1, quiet = False, y_obs = [0],
      prior = (\<lambda>th. if hd th < 10 then Inr (Finite 0) else Inr NegInf),
      simulate_y = (\<lambda>th g. Inr (th, g)),
      anderson_ksamp = (\<lambda>ys. Inr (hd (hd ys)))\<rparr>"


text \<open>
  Two configurations in which no proposal can be accepted and the call still ends: a target
  of zero samples with a prior that rejects every vector, and a prior that raises.
\<close>

definition rejecting_prior :: "real list \<Rightarrow> error + lnp" where
  "rejecting_prior th = Inr NegInf"

definition raising_prior :: "real list \<Rightarrow> error + lnp" where
  "raising_prior th = Inl CollaboratorError"

definition zero_target_config :: config where
  "zero_target_config = demo_config\<lparr>n_steps := 0, prior := rejecting_prior\<rparr>"

definition raising_config :: config where
  "raising_config = demo_config\<lparr>prior := raising_prior\<rparr>"

section \<open>Properties\<close>

subsection \<open>The loop and its bounded unrolling\<close>

lemma progress_bar_fields [simp]:
  "theta (progress_bar c st) = theta st"
  "accepted_steps (progress_bar c st) = accepted_steps st"
  "total_steps (progress_bar c st) = total_steps st"
  "samples (progress_bar c st) = samples st"
  "rng (progress_bar c st) = rng st"
  by (simp_all add: progress_bar_def)

lemma iterate_finished_sampling_loop:
  "finished c (iterate_loop c k st) \<Longrightarrow> sampling_loop c st = Some (iterate_loop c k st)"
proof (induction k arbitrary: st)
  case 0
  then show ?case by (subst sampling_loop.simps) simp
next
  case (Suc k)
  show ?case
  proof (cases "accepted_steps st < n_steps c")
    case False
    then show ?thesis by (subst sampling_loop.simps) simp
  next
    case True
    show ?thesis
    proof (cases "loop_body c st")
      case (Inl e)
      with True show ?thesis by (subst sampling_loop.simps) simp
    next
      case (Inr st')
      with True Suc.prems have "finished c (iterate_loop c k st')" by simp
      from Suc.IH [OF this] True Inr show ?thesis
        by (subst sampling_loop.simps) simp
    qed
  qed
qed

lemma sampling_loop_iterate:
  assumes "sampling_loop c st = Some r"
  shows "\<exists>k. iterate_loop c k st = r \<and> finished c r"
proof (rule sampling_loop.raw_induct
    [where P = "\<lambda>c st r. \<exists>k. iterate_loop c k st = r \<and> finished c r", OF _ assms])
  fix f c st r
  assume IH: "\<And>c st r. f c st = Some r \<Longrightarrow> \<exists>k. iterate_loop c k st = r \<and> finished c r"
    and eq: "(if accepted_steps st < n_steps c
              then case loop_body c st of Inl e \<Rightarrow> Some (Inl e) | Inr st' \<Rightarrow> f c st'
              else Some (Inr st)) = Some r"
  show "\<exists>k. iterate_loop c k st = r \<and> finished c r"
  proof (cases "accepted_steps st < n_steps c")
    case False
    with eq have "iterate_loop c 0 st = r \<and> finished c r" by auto
    then show ?thesis by blast
  next
    case True
    show ?thesis
    proof (cases "loop_body c st")
      case (Inl e)
      with True eq have "iterate_loop c (Suc 0) st = r \<and> finished c r" by auto
      then show ?thesis by blast
    next
      case (Inr st')
      with True eq have "f c st' = Some r" by simp
      from IH [OF this] obtain k where "iterate_loop c k st' = r \<and> finished c r" by blast
      with True Inr have "iterate_loop c (Suc k) st = r \<and> finished c r" by simp
      then show ?thesis by blast
    qed
  qed
qed

subsection \<open>One execution of the loop body\<close>

lemma length_candidate: "length (candidate c st) = length (theta st)"
  by (simp add: candidate_def propose_step_def randn_def)

lemma set_row_in_range:
  assumes "0 \<le> i" "i < int (length a)" "length v = length (a ! nat i)"
  shows "set_row a i v = Inr (a[nat i := v])"
  using assms by (simp add: set_row_def Let_def)

lemma loop_body_step:
  assumes "loop_body c st = Inr st'"
  shows "(accepts c st \<and> prior_valid c st
            \<and> set_row (samples st) (accepted_steps st) (candidate c st) = Inr (samples st')
            \<and> theta st' = candidate c st
            \<and> accepted_steps st' = accepted_steps st + 1
            \<and> total_steps st' = total_steps st + 1)
       \<or> (\<not> accepts c st
            \<and> samples st' = samples st
            \<and> theta st' = theta st
            \<and> accepted_steps st' = accepted_steps st
            \<and> total_steps st' = total_steps st + (if prior_valid c st then 1 else 0))"
  using assms
  by (auto simp: loop_body_def accepts_def prior_valid_def candidate_def Let_def
           split: prod.splits sum.splits if_splits)

subsection \<open>The content of \<open>samples\<close> during a run\<close>

lemma run_chain_general:
  assumes "iterate_loop c k st = Inr st'"
    and "length (theta st) = L"
    and "samples st = pre @ replicate m (replicate L 0)"
    and "int (length pre) = accepted_steps st"
    and "accepted_steps st + int m = n_steps c"
  shows "samples st' = pre @ accepted_thetas c k st
            @ replicate (nat (n_steps c - accepted_steps st')) (replicate L 0)
       \<and> accepted_steps st' = accepted_steps st + int (length (accepted_thetas c k st))
       \<and> accepted_steps st' \<le> n_steps c
       \<and> length (theta st') = L"
  using assms
proof (induction k arbitrary: st pre m)
  case 0
  then show ?case by simp
next
  case (Suc k)
  show ?case
  proof (cases "accepted_steps st < n_steps c")
    case False
    with Suc.prems show ?thesis by simp
  next
    case True
    with Suc.prems(1) obtain st1 where body: "loop_body c st = Inr st1"
      and rest: "iterate_loop c k st1 = Inr st'"
      by (auto split: sum.splits)
    from True Suc.prems(5) obtain m' where m: "m = Suc m'" by (cases m) auto
    have acc_nat: "nat (accepted_steps st) = length pre"
      using Suc.prems(4) by simp
    show ?thesis
    proof (cases "accepts c st")
      case False
      with loop_body_step [OF body]
      have same: "samples st1 = samples st" "theta st1 = theta st"
        "accepted_steps st1 = accepted_steps st" by auto
      from Suc.IH [OF rest, of pre m] same Suc.prems
      have "samples st' = pre @ accepted_thetas c k st1
              @ replicate (nat (n_steps c - accepted_steps st')) (replicate L 0)
          \<and> accepted_steps st' = accepted_steps st1 + int (length (accepted_thetas c k st1))
          \<and> accepted_steps st' \<le> n_steps c \<and> length (theta st') = L"
        by simp
      with True body False same show ?thesis by simp
    next
      case acc: True
      with loop_body_step [OF body]
      have upd: "set_row (samples st) (accepted_steps st) (candidate c st) = Inr (samples st1)"
        and th: "theta st1 = candidate c st"
        and a1: "accepted_steps st1 = accepted_steps st + 1" by auto
      have row: "samples st ! nat (accepted_steps st) = replicate L 0"
        using Suc.prems(3) acc_nat m by (simp add: nth_append)
      have "set_row (samples st) (accepted_steps st) (candidate c st)
              = Inr ((samples st)[nat (accepted_steps st) := candidate c st])"
        using Suc.prems(2,3,4) m row
        by (intro set_row_in_range) (simp_all add: length_candidate)
      with upd have "samples st1 = (samples st)[nat (accepted_steps st) := candidate c st]"
        by simp
      then have s1: "samples st1 = (pre @ [candidate c st]) @ replicate m' (replicate L 0)"
        using Suc.prems(3) acc_nat m by (simp add: list_update_append)
      have l1: "length (theta st1) = L"
        using th Suc.prems(2) by (simp add: length_candidate)
      have p1: "int (length (pre @ [candidate c st])) = accepted_steps st1"
        using a1 Suc.prems(4) by simp
      have n1: "accepted_steps st1 + int m' = n_steps c"
        using a1 m Suc.prems(5) by simp
      from Suc.IH [OF rest l1 s1 p1 n1]
      have "samples st' = (pre @ [candidate c st]) @ accepted_thetas c k st1
              @ replicate (nat (n_steps c - accepted_steps st')) (replicate L 0)
          \<and> accepted_steps st' = accepted_steps st1 + int (length (accepted_thetas c k st1))
          \<and> accepted_steps st' \<le> n_steps c \<and> length (theta st') = L"
        by simp
      with True body acc a1 show ?thesis by simp
    qed
  qed
qed

lemma run_chain:
  assumes "iterate_loop c k (init_state c theta0 g0) = Inr st"
    and "0 \<le> n_steps c"
  shows "samples st = accepted_thetas c k (init_state c theta0 g0)
            @ replicate (nat (n_steps c - accepted_steps st)) (replicate (length theta0) 0)"
    and "accepted_steps st = int (length (accepted_thetas c k (init_state c theta0 g0)))"
    and "accepted_steps st \<le> n_steps c"
    and "length (theta st) = length theta0"
  using run_chain_general [OF assms(1), of "length theta0" "[]" "nat (n_steps c)"] assms(2)
  by (simp_all add: init_state_def)

subsection \<open>Prefixes of a run, the first finished state, runs that never finish\<close>

lemma iterate_loop_add:
  "iterate_loop c (j + m) st =
     (case iterate_loop c j st of Inl e \<Rightarrow> Inl e | Inr s \<Rightarrow> iterate_loop c m s)"
proof (induction j arbitrary: st)
  case 0
  then show ?case by simp
next
  case (Suc j)
  show ?case
  proof (cases "accepted_steps st < n_steps c")
    case True
    then show ?thesis by (simp add: Suc.IH split: sum.splits)
  next
    case False
    then show ?thesis by (cases m) simp_all
  qed
qed

lemma iterate_loop_stable:
  assumes "finished c (iterate_loop c j st)"
  shows "iterate_loop c (j + m) st = iterate_loop c j st"
proof (cases "iterate_loop c j st")
  case (Inl e)
  then show ?thesis by (simp add: iterate_loop_add)
next
  case (Inr s)
  with assms have "\<not> accepted_steps s < n_steps c" by simp
  then have "iterate_loop c m s = Inr s" by (cases m) simp_all
  with Inr show ?thesis by (simp add: iterate_loop_add)
qed

lemma accepted_thetas_stable:
  assumes "finished c (iterate_loop c j st)"
  shows "accepted_thetas c (j + m) st = accepted_thetas c j st"
  using assms
proof (induction j arbitrary: st)
  case 0
  then show ?case by (cases m) simp_all
next
  case (Suc j)
  then show ?case by (auto split: sum.splits)
qed

lemma first_finished:
  assumes "finished c (iterate_loop c k st)"
  obtains k' where "k' \<le> k" "iterate_loop c k' st = iterate_loop c k st"
    "accepted_thetas c k' st = accepted_thetas c k st"
    "\<And>j. j < k' \<Longrightarrow> \<not> finished c (iterate_loop c j st)"
proof -
  define k' where "k' = (LEAST j. finished c (iterate_loop c j st))"
  have fin: "finished c (iterate_loop c k' st)"
    unfolding k'_def using assms by (rule LeastI)
  have le: "k' \<le> k"
    unfolding k'_def using assms by (rule Least_le)
  have least: "\<And>j. j < k' \<Longrightarrow> \<not> finished c (iterate_loop c j st)"
    unfolding k'_def by (rule not_less_Least)
  from le obtain m where "k = k' + m" using le_Suc_ex by blast
  with fin have "iterate_loop c k' st = iterate_loop c k st"
    "accepted_thetas c k' st = accepted_thetas c k st"
    by (simp_all add: iterate_loop_stable accepted_thetas_stable)
  with le least show thesis using that by blast
qed

lemma sampling_loop_None_iff:
  "sampling_loop c st = None \<longleftrightarrow> (\<forall>k. \<not> finished c (iterate_loop c k st))"
proof
  assume none: "sampling_loop c st = None"
  show "\<forall>k. \<not> finished c (iterate_loop c k st)"
  proof
    fix k
    show "\<not> finished c (iterate_loop c k st)"
      using iterate_finished_sampling_loop [of c k st] none by auto
  qed
next
  assume all: "\<forall>k. \<not> finished c (iterate_loop c k st)"
  show "sampling_loop c st = None"
  proof (cases "sampling_loop c st")
    case None
    then show ?thesis .
  next
    case (Some r)
    from sampling_loop_iterate [OF this] all show ?thesis by blast
  qed
qed

subsection \<open>Evaluating the small run\<close>

lemmas demo_defs =
  demo_config_def demo_rng_def init_state_def loop_body_def progress_bar_def
  propose_step_def randn_def distance_def set_row_def Let_def

lemma demo_run:
  "\<exists>st. iterate_loop demo_config (Suc (Suc (Suc (Suc 0)))) (init_state demo_config [0] demo_rng) = Inr st
     \<and> accepted_steps st = 2 \<and> total_steps st = 3 \<and> samples st = [[1], [0]]
     \<and> stdout st = [Progress 0 2]"
  by (simp add: demo_defs numeral_2_eq_2)

lemma demo_sampler:
  "\<exists>st. rejection_sampler demo_config [0] demo_rng = Some (Inr ([[1], [0]], st))
     \<and> stdout st = [Progress 0 2, AcceptanceRate (2 / 3)]"
proof -
  from demo_run obtain st where
    run: "iterate_loop demo_config (Suc (Suc (Suc (Suc 0)))) (init_state demo_config [0] demo_rng) = Inr st"
    and st: "accepted_steps st = 2" "total_steps st = 3" "samples st = [[1], [0]]"
      "stdout st = [Progress 0 2]"
    by blast
  have "finished demo_config (iterate_loop demo_config (Suc (Suc (Suc (Suc 0))))
          (init_state demo_config [0] demo_rng))"
    using run st by (simp add: demo_config_def)
  from iterate_finished_sampling_loop [OF this] run
  have "sampling_loop demo_config (init_state demo_config [0] demo_rng) = Some (Inr st)"
    by simp
  then show ?thesis
    using st by (simp add: rejection_sampler_def demo_config_def)
qed



subsection \<open>Counters and rows of a run\<close>

lemma run_counters_general:
  assumes "iterate_loop c k st = Inr st'"
    and "0 \<le> accepted_steps st" "accepted_steps st \<le> total_steps st"
  shows "0 \<le> accepted_steps st' \<and> accepted_steps st' \<le> total_steps st'
       \<and> accepted_steps st \<le> accepted_steps st' \<and> total_steps st \<le> total_steps st'"
  using assms
proof (induction k arbitrary: st)
  case 0
  then show ?case by simp
next
  case (Suc k)
  show ?case
  proof (cases "accepted_steps st < n_steps c")
    case False
    with Suc.prems show ?thesis by simp
  next
    case True
    with Suc.prems(1) obtain st1 where body: "loop_body c st = Inr st1"
      and rest: "iterate_loop c k st1 = Inr st'"
      by (auto split: sum.splits)
    from loop_body_step [OF body] Suc.prems(2,3)
    have step: "0 \<le> accepted_steps st1" "accepted_steps st1 \<le> total_steps st1"
      "accepted_steps st \<le> accepted_steps st1" "total_steps st \<le> total_steps st1"
      by (auto split: if_splits)
    from Suc.IH [OF rest step(1,2)] step(3,4) show ?thesis by simp
  qed
qed

lemma run_counters:
  assumes "iterate_loop c k (init_state c theta0 g0) = Inr st"
  shows "0 \<le> accepted_steps st" "accepted_steps st \<le> total_steps st"
  using run_counters_general [OF assms] by (simp_all add: init_state_def)

lemma run_monotone:
  assumes "iterate_loop c k (init_state c theta0 g0) = Inr st"
    and "j \<le> k" "iterate_loop c j (init_state c theta0 g0) = Inr st_j"
  shows "accepted_steps st_j \<le> accepted_steps st \<and> total_steps st_j \<le> total_steps st"
proof -
  from assms(2) obtain m where k: "k = j + m" using le_Suc_ex by blast
  from assms(1,3) have rest: "iterate_loop c m st_j = Inr st"
    unfolding k by (simp add: iterate_loop_add)
  from run_counters [OF assms(3)] run_counters_general [OF rest] show ?thesis by simp
qed

lemma accepted_thetas_accepted:
  assumes "v \<in> set (accepted_thetas c k st)"
  shows "\<exists>lp. prior c v = Inr lp \<and> isfinite lp"
  using assms
proof (induction k arbitrary: st)
  case 0
  then show ?case by simp
next
  case (Suc k)
  show ?case
  proof (cases "accepted_steps st < n_steps c")
    case False
    with Suc.prems show ?thesis by simp
  next
    case True
    show ?thesis
    proof (cases "loop_body c st")
      case (Inl e)
      with True Suc.prems show ?thesis by simp
    next
      case (Inr st1)
      with True Suc.prems
      have "(accepts c st \<and> v = candidate c st) \<or> v \<in> set (accepted_thetas c k st1)"
        by (auto split: if_splits)
      then show ?thesis
      proof
        assume "accepts c st \<and> v = candidate c st"
        then show ?thesis
          by (auto simp: accepts_def candidate_def split: prod.splits sum.splits)
      next
        assume "v \<in> set (accepted_thetas c k st1)"
        then show ?thesis by (rule Suc.IH)
      qed
    qed
  qed
qed

lemma run_negative_n_steps:
  assumes "n_steps c \<le> 0"
  shows "iterate_loop c k (init_state c theta0 g0) = Inr (init_state c theta0 g0)"
  using assms by (cases k) (simp_all add: init_state_def)

lemma run_rows_prior_valid:
  assumes "iterate_loop c k (init_state c theta0 g0) = Inr st"
    and "i < nat (accepted_steps st)"
  shows "\<exists>lp. prior c (samples st ! i) = Inr lp \<and> isfinite lp"
proof (cases "0 \<le> n_steps c")
  case True
  note inv = run_chain [OF assms(1) True]
  from inv(1,2) assms(2)
  have "samples st ! i = accepted_thetas c k (init_state c theta0 g0) ! i"
    and "i < length (accepted_thetas c k (init_state c theta0 g0))"
    by (simp_all add: nth_append)
  then have "samples st ! i \<in> set (accepted_thetas c k (init_state c theta0 g0))"
    by simp
  then show ?thesis by (rule accepted_thetas_accepted)
next
  case False
  then have "iterate_loop c k (init_state c theta0 g0) = Inr (init_state c theta0 g0)"
    by (intro run_negative_n_steps) simp
  with assms show ?thesis by (simp add: init_state_def)
qed

lemma run_rows_unwritten:
  assumes "iterate_loop c k (init_state c theta0 g0) = Inr st"
    and "0 \<le> n_steps c"
    and "nat (accepted_steps st) \<le> i" "i < nat (n_steps c)"
  shows "samples st ! i = replicate (length theta0) 0"
proof -
  note inv = run_chain [OF assms(1,2)]
  from inv(2) have len: "length (accepted_thetas c k (init_state c theta0 g0)) = nat (accepted_steps st)"
    by simp
  have "i - nat (accepted_steps st) < nat (n_steps c - accepted_steps st)"
    using assms(3,4) inv(2,3) by linarith
  with inv(1) len assms(3) show ?thesis
    by (simp add: nth_append)
qed

lemma loop_body_prior_rejected:
  assumes "propose_step (theta st) (scale c) (rng st) = (new_theta, g1)"
    and "prior c new_theta = Inr lp" "\<not> isfinite lp"
  shows "loop_body c st = Inr ((progress_bar c st)\<lparr>rng := g1\<rparr>)"
  using assms by (simp add: loop_body_def Let_def)

lemma progress_bar_config [simp]:
  "progress_bar (c\<lparr>simulate_y := sim, anderson_ksamp := ad\<rparr>) st = progress_bar c st"
  by (simp add: progress_bar_def)

lemma run_write_in_range:
  assumes "iterate_loop c k (init_state c theta0 g0) = Inr st"
    and "accepted_steps st < n_steps c"
    and "length v = length (theta st)"
  shows "set_row (samples st) (accepted_steps st) v
           = Inr ((samples st)[nat (accepted_steps st) := v])"
    and "nat (accepted_steps st) < length (samples st)"
proof -
  from run_counters [OF assms(1)] assms(2) have n0: "0 \<le> n_steps c" and a0: "0 \<le> accepted_steps st"
    by simp_all
  note inv = run_chain [OF assms(1) n0]
  have len: "length (samples st) = nat (n_steps c)"
    using inv(1,2,3) by simp
  from run_rows_unwritten [OF assms(1) n0, of "nat (accepted_steps st)"] assms(2) a0
  have row: "samples st ! nat (accepted_steps st) = replicate (length theta0) 0"
    by simp
  show "nat (accepted_steps st) < length (samples st)"
    using len assms(2) a0 by simp
  show "set_row (samples st) (accepted_steps st) v
           = Inr ((samples st)[nat (accepted_steps st) := v])"
    using a0 assms(2,3) len row inv(4) by (intro set_row_in_range) simp_all
qed

subsection \<open>Single iterations of the small run\<close>

lemma demo_rng_0: "demo_rng 0 = 1"
  by (simp add: demo_rng_def)

lemma demo_first_iteration:
  "iterate_loop demo_config 0 (init_state demo_config [0] demo_rng)
     = Inr (init_state demo_config [0] demo_rng)"
  "accepted_steps (init_state demo_config [0] demo_rng) < n_steps demo_config"
  "propose_step (theta (init_state demo_config [0] demo_rng)) (scale demo_config)
     (rng (init_state demo_config [0] demo_rng)) = ([1], \<lambda>i. demo_rng (i + 1))"
  "prior demo_config [1] = Inr (Finite 0)"
  "simulate_y demo_config [1] (\<lambda>i. demo_rng (i + 1)) = Inr ([1], \<lambda>i. demo_rng (i + 1))"
  "distance (anderson_ksamp demo_config) (y_obs demo_config) [1] = Inr (231 / 100)"
  by (simp_all add: demo_config_def init_state_def propose_step_def randn_def distance_def
        demo_rng_0)

lemma demo_far_iteration:
  "iterate_loop demo_config 0 (init_state demo_config [5] demo_rng)
     = Inr (init_state demo_config [5] demo_rng)"
  "accepted_steps (init_state demo_config [5] demo_rng) < n_steps demo_config"
  "propose_step (theta (init_state demo_config [5] demo_rng)) (scale demo_config)
     (rng (init_state demo_config [5] demo_rng)) = ([6], \<lambda>i. demo_rng (i + 1))"
  "prior demo_config [6] = Inr (Finite 0)"
  "simulate_y demo_config [6] (\<lambda>i. demo_rng (i + 1)) = Inr ([6], \<lambda>i. demo_rng (i + 1))"
  "distance (anderson_ksamp demo_config) (y_obs demo_config) [6] = Inr (731 / 100)"
  by (simp_all add: demo_config_def init_state_def propose_step_def randn_def distance_def
        demo_rng_0)

subsection \<open>What a returning call has done\<close>

lemma returned_chain_is_run_state:
  assumes "rejection_sampler c theta0 g0 = Some (Inr (chain, st))"
  obtains k st0 where "iterate_loop c k (init_state c theta0 g0) = Inr st0"
    "\<not> accepted_steps st0 < n_steps c" "0 \<le> n_steps c" "chain = samples st0"
    "total_steps st0 \<noteq> 0"
    "st = st0\<lparr>stdout := stdout st0 @
       [AcceptanceRate (real_of_int (accepted_steps st0) / real_of_int (total_steps st0))]\<rparr>"
proof -
  from assms obtain st0 where loop: "sampling_loop c (init_state c theta0 g0) = Some (Inr st0)"
    and rest: "0 \<le> n_steps c" "chain = samples st0" "total_steps st0 \<noteq> 0"
      "st = st0\<lparr>stdout := stdout st0 @
         [AcceptanceRate (real_of_int (accepted_steps st0) / real_of_int (total_steps st0))]\<rparr>"
    by (auto simp: rejection_sampler_def split: if_splits option.splits sum.splits)
  from sampling_loop_iterate [OF loop] obtain k where
    "iterate_loop c k (init_state c theta0 g0) = Inr st0" "\<not> accepted_steps st0 < n_steps c"
    by auto
  with rest show thesis using that by blast
qed

lemma demo_outside_prior_iteration:
  "propose_step (theta (init_state demo_config [50] demo_rng)) (scale demo_config)
     (rng (init_state demo_config [50] demo_rng)) = ([51], \<lambda>i. demo_rng (i + 1))"
  "prior demo_config [51] = Inr NegInf"
  by (simp_all add: demo_config_def init_state_def propose_step_def randn_def demo_rng_0)

lemma demo_after_one_iteration:
  "\<exists>st. iterate_loop demo_config (Suc 0) (init_state demo_config [0] demo_rng) = Inr st
     \<and> accepted_steps st = 1 \<and> total_steps st = 1 \<and> samples st = [[1], [0]]
     \<and> \<not> prior_valid demo_config st
     \<and> (\<exists>st'. loop_body demo_config st = Inr st')"
  by (simp add: demo_defs prior_valid_def candidate_def numeral_2_eq_2)

subsection \<open>Runs without acceptance\<close>

lemma never_finished_sampler_None:
  assumes "0 \<le> n_steps c"
    and "\<And>k. \<not> finished c (iterate_loop c k (init_state c theta0 g0))"
  shows "rejection_sampler c theta0 g0 = None"
proof -
  from assms(2) have "sampling_loop c (init_state c theta0 g0) = None"
    by (simp add: sampling_loop_None_iff)
  with assms(1) show ?thesis by (simp add: rejection_sampler_def)
qed

lemma always_rejecting_prior:
  assumes "\<And>th. prior c th = Inr NegInf"
  shows "\<not> accepts c st" "\<exists>st'. loop_body c st = Inr st'"
  using assms by (simp_all add: accepts_def loop_body_def Let_def split: prod.splits)

lemma always_distant:
  assumes "\<And>th. prior c th = Inr (Finite 0)" "\<And>th g. simulate_y c th g = Inr (th, g)"
    and "\<And>ys. anderson_ksamp c ys = Inr 100" "h c < 100"
  shows "\<not> accepts c st" "\<exists>st'. loop_body c st = Inr st'"
  using assms
  by (simp_all add: accepts_def loop_body_def distance_def Let_def split: prod.splits)


lemma demo_loop:
  "\<exists>st. sampling_loop demo_config (init_state demo_config [0] demo_rng) = Some (Inr st)
     \<and> accepted_steps st = 2 \<and> total_steps st = 3 \<and> samples st = [[1], [0]]"
proof -
  from demo_run obtain st where
    run: "iterate_loop demo_config (Suc (Suc (Suc (Suc 0)))) (init_state demo_config [0] demo_rng) = Inr st"
    and st: "accepted_steps st = 2" "total_steps st = 3" "samples st = [[1], [0]]"
    by blast
  have "finished demo_config (iterate_loop demo_config (Suc (Suc (Suc (Suc 0))))
          (init_state demo_config [0] demo_rng))"
    using run st by (simp add: demo_config_def)
  from iterate_finished_sampling_loop [OF this] run st show ?thesis by simp
qed

subsection \<open>Exceptions\<close>

lemma loop_exception_is_fatal:
  assumes "iterate_loop c k (init_state c theta0 g0) = Inr st"
    and "accepted_steps st < n_steps c"
    and "loop_body c st = Inl e"
  shows "rejection_sampler c theta0 g0 = Some (Inl e)"
proof -
  from run_counters [OF assms(1)] assms(2) have n0: "0 \<le> n_steps c" by simp
  have "iterate_loop c (Suc 0) st = Inl e"
    using assms(2,3) by simp
  then have "iterate_loop c (k + Suc 0) (init_state c theta0 g0) = Inl e"
    using assms(1) by (simp only: iterate_loop_add sum.case)
  then have "finished c (iterate_loop c (k + Suc 0) (init_state c theta0 g0))"
    by (simp only: finished.simps)
  from iterate_finished_sampling_loop [OF this]
    \<open>iterate_loop c (k + Suc 0) (init_state c theta0 g0) = Inl e\<close>
  have "sampling_loop c (init_state c theta0 g0) = Some (Inl e)" by simp
  with n0 show ?thesis by (simp add: rejection_sampler_def)
qed

lemma lnprior_wrong_length:
  assumes "length th \<noteq> 4"
  shows "lnprior th = Inl DimensionMismatch"
  using assms by (auto simp: lnprior_def split: list.splits)

lemma simulate_dataset_wrong_length:
  assumes "length th \<noteq> 4"
  shows "simulate_dataset th g = Inl DimensionMismatch"
  using assms by (auto simp: simulate_dataset_def split: list.splits)

lemma loop_body_prior_raises:
  assumes "prior c (candidate c st) = Inl e"
  shows "loop_body c st = Inl e"
  using assms by (auto simp: loop_body_def candidate_def Let_def split: prod.splits)

lemma loop_body_simulate_raises:
  assumes "prior_valid c st"
    and "\<And>g. simulate_y c (candidate c st) g = Inl e"
  shows "loop_body c st = Inl e"
  using assms
  by (auto simp: loop_body_def candidate_def prior_valid_def Let_def
           split: prod.splits sum.splits)

subsection \<open>The size of a simulated dataset and the value of the distance\<close>

lemma split_sizes:
  fixes f :: real
  assumes "0 \<le> f" "f \<le> 1"
  shows "0 \<le> py_int ((1 - f) * real len_x)" "0 \<le> py_int (f * real len_x)"
    and "py_int ((1 - f) * real len_x) + py_int (f * real len_x) = 499
       \<or> py_int ((1 - f) * real len_x) + py_int (f * real len_x) = 500"
proof -
  have nn: "0 \<le> (1 - f) * 500" "0 \<le> f * 500" using assms by simp_all
  then show "0 \<le> py_int ((1 - f) * real len_x)" "0 \<le> py_int (f * real len_x)"
    by (simp_all add: py_int_def len_x_def)
  define a b where "a = \<lfloor>(1 - f) * 500\<rfloor>" and "b = \<lfloor>f * 500\<rfloor>"
  have "of_int a \<le> (1 - f) * 500" "(1 - f) * 500 < of_int a + 1"
    "of_int b \<le> f * 500" "f * 500 < of_int b + 1"
    unfolding a_def b_def by linarith+
  then have "real_of_int (a + b) \<le> 500" "500 < real_of_int (a + b) + 2" by simp_all
  then have "a + b \<le> 500" "498 < a + b" by linarith+
  then have "a + b = 499 \<or> a + b = 500" by linarith
  then have "\<lfloor>(1 - f) * 500\<rfloor> + \<lfloor>f * 500\<rfloor> = 499 \<or> \<lfloor>(1 - f) * 500\<rfloor> + \<lfloor>f * 500\<rfloor> = 500"
    unfolding a_def b_def .
  with nn show "py_int ((1 - f) * real len_x) + py_int (f * real len_x) = 499
       \<or> py_int ((1 - f) * real len_x) + py_int (f * real len_x) = 500"
    by (simp add: py_int_def len_x_def)
qed

lemma simulate_dataset_returns:
  assumes "lnprior th = Inr (Finite 0)"
  shows "\<exists>ys g'. simulate_dataset th g = Inr (ys, g')
           \<and> (length ys = 499 \<or> length ys = 500)"
proof -
  from assms obtain m1 m2 s f where th: "th = [m1, m2, s, f]" and f: "0 \<le> f" "f \<le> 1"
    by (auto simp: lnprior_def split: list.splits if_splits)
  note sz = split_sizes [OF f]
  let ?n1 = "py_int ((1 - f) * real len_x)" and ?n2 = "py_int (f * real len_x)"
  have "simulate_dataset th g =
      Inr (map (\<lambda>r. m1 + s * r) (fst (randn (nat ?n1) g))
           @ map (\<lambda>r. m2 + s * r) (fst (randn (nat ?n2) (snd (randn (nat ?n1) g)))),
           snd (randn (nat ?n2) (snd (randn (nat ?n1) g))))"
    using sz(1,2) by (simp add: th simulate_dataset_def Let_def split: prod.splits)
  moreover have "length (map (\<lambda>r. m1 + s * r) (fst (randn (nat ?n1) g))
           @ map (\<lambda>r. m2 + s * r) (fst (randn (nat ?n2) (snd (randn (nat ?n1) g)))))
         = nat (?n1 + ?n2)"
    using sz(1,2) by (simp add: randn_def nat_add_distrib)
  ultimately show ?thesis using sz(3) by auto
qed

lemma simulate_dataset_empty_component:
  "lnprior [0, 5, 1, 0] = Inr (Finite 0)"
  "simulate_dataset [0, 5, 1, 0] g
     = Inr (map (\<lambda>r. 0 + 1 * r) (fst (randn 500 g)) @ [], snd (randn 500 g))"
  by (simp_all add: lnprior_def simulate_dataset_def py_int_def len_x_def randn_def Let_def)

lemma distance_value:
  "distance ad_stat obs sim = Inr d \<longleftrightarrow> (\<exists>a2. ad_stat [sim, obs] = Inr a2 \<and> d = a2 + 131 / 100)"
  by (auto simp: distance_def split: sum.splits)

lemma distance_nonneg_iff:
  assumes "distance ad_stat obs sim = Inr d"
  shows "0 \<le> d \<longleftrightarrow> (\<exists>a2. ad_stat [sim, obs] = Inr a2 \<and> - (131 / 100) \<le> a2)"
  using assms by (auto simp: distance_def split: sum.splits)

lemma zero_steps_division_error:
  assumes "n_steps c = 0"
  shows "rejection_sampler c theta0 g0 = Some (Inl ZeroDivisionError)"
proof -
  have "sampling_loop c (init_state c theta0 g0) = Some (Inr (init_state c theta0 g0))"
    using assms by (subst sampling_loop.simps) (simp add: init_state_def)
  with assms show ?thesis by (simp add: rejection_sampler_def init_state_def)
qed

subsection \<open>The claims\<close>

text \<open>
  Claim C1. Every call of \<open>rejection_sampler\<close> with \<open>n_steps \<ge> 1\<close> that returns has
  left the loop at the first state whose \<open>accepted_steps\<close> equals \<open>n_steps\<close> (every
  earlier state of the run had fewer accepted steps), and the returned array has exactly
  \<open>n_steps\<close> rows: row \<open>i\<close> is the \<open>i\<close>-th candidate that passed the prior filter
  with a distance of at most \<open>h\<close>, in the order of acceptance.
\<close>

theorem chain_rows_in_order_of_acceptance:
  assumes "rejection_sampler c theta0 g0 = Some (Inr (chain, st))"
    and "1 \<le> n_steps c"
  shows "\<exists>k st_k.
           iterate_loop c k (init_state c theta0 g0) = Inr st_k
         \<and> accepted_steps st_k = n_steps c
         \<and> (\<forall>j<k. \<exists>st_j. iterate_loop c j (init_state c theta0 g0) = Inr st_j
                \<and> accepted_steps st_j < n_steps c)
         \<and> chain = samples st_k
         \<and> length chain = nat (n_steps c)
         \<and> chain = accepted_thetas c k (init_state c theta0 g0)"
proof -
  let ?init = "init_state c theta0 g0"
  from assms(1) obtain st0 where loop: "sampling_loop c ?init = Some (Inr st0)"
    and chain: "chain = samples st0"
    by (auto simp: rejection_sampler_def split: if_splits option.splits sum.splits)
  from sampling_loop_iterate [OF loop] obtain k0 where
    k0: "iterate_loop c k0 ?init = Inr st0" and fin0: "finished c (Inr st0)" by blast
  from k0 fin0 have "finished c (iterate_loop c k0 ?init)" by simp
  from first_finished [OF this] obtain k where
    k: "iterate_loop c k ?init = iterate_loop c k0 ?init"
    and acc_k: "accepted_thetas c k ?init = accepted_thetas c k0 ?init"
    and least: "\<And>j. j < k \<Longrightarrow> \<not> finished c (iterate_loop c j ?init)"
    by blast
  from k k0 have run: "iterate_loop c k ?init = Inr st0" by simp
  from assms(2) have n0: "0 \<le> n_steps c" by simp
  note inv = run_chain [OF run n0]
  from fin0 inv(3) have full: "accepted_steps st0 = n_steps c" by simp
  have before: "\<forall>j<k. \<exists>st_j. iterate_loop c j ?init = Inr st_j
                  \<and> accepted_steps st_j < n_steps c"
  proof (intro allI impI)
    fix j assume "j < k"
    from least [OF this] show "\<exists>st_j. iterate_loop c j ?init = Inr st_j
        \<and> accepted_steps st_j < n_steps c"
      by (cases "iterate_loop c j ?init") simp_all
  qed
  from inv(1) full have content: "samples st0 = accepted_thetas c k ?init" by simp
  from inv(2) full content have len: "length (samples st0) = nat (n_steps c)" by simp
  from run full before chain len content show ?thesis by blast
qed

theorem chain_rows_in_order_of_acceptance_witness:
  "\<exists>k st_k.
     iterate_loop demo_config k (init_state demo_config [0] demo_rng) = Inr st_k
   \<and> accepted_steps st_k = 2
   \<and> (\<forall>j<k. \<exists>st_j. iterate_loop demo_config j (init_state demo_config [0] demo_rng) = Inr st_j
          \<and> accepted_steps st_j < 2)
   \<and> [[1], [0]] = samples st_k
   \<and> length [[1], [0 :: real]] = nat 2
   \<and> [[1], [0]] = accepted_thetas demo_config k (init_state demo_config [0] demo_rng)"
proof -
  from demo_sampler obtain st where
    ret: "rejection_sampler demo_config [0] demo_rng = Some (Inr ([[1], [0]], st))" by blast
  have n: "1 \<le> n_steps demo_config" by (simp add: demo_config_def)
  have n2: "n_steps demo_config = 2" by (simp add: demo_config_def)
  show ?thesis
    using chain_rows_in_order_of_acceptance [OF ret n] unfolding n2 by simp
qed

text \<open>
  Claim C2. In every iteration of a run in which the candidate passes the prior filter
  (and the simulator and the distance return): when the distance is at most \<open>h\<close>,
  equality included, the current \<open>theta\<close> becomes the candidate, the candidate is written
  into the row \<open>accepted_steps\<close> of \<open>samples\<close>, and \<open>accepted_steps\<close> grows by one;
  when the distance exceeds \<open>h\<close>, \<open>theta\<close>, \<open>samples\<close> and \<open>accepted_steps\<close>
  are unchanged.
\<close>

theorem accept_iff_distance_at_most_h:
  assumes "iterate_loop c k (init_state c theta0 g0) = Inr st"
    and "accepted_steps st < n_steps c"
    and "propose_step (theta st) (scale c) (rng st) = (new_theta, g1)"
    and "prior c new_theta = Inr lp" and "isfinite lp"
    and "simulate_y c new_theta g1 = Inr (y_sim, g2)"
    and "distance (anderson_ksamp c) (y_obs c) y_sim = Inr d"
  shows "\<exists>st'. loop_body c st = Inr st'
           \<and> (d \<le> h c \<longrightarrow>
                 theta st' = new_theta
               \<and> samples st' = (samples st)[nat (accepted_steps st) := new_theta]
               \<and> nat (accepted_steps st) < length (samples st)
               \<and> accepted_steps st' = accepted_steps st + 1)
           \<and> (h c < d \<longrightarrow>
                 theta st' = theta st
               \<and> samples st' = samples st
               \<and> accepted_steps st' = accepted_steps st)"
proof -
  have len: "length new_theta = length (theta st)"
    using length_candidate [of c st] assms(3) by (simp add: candidate_def)
  note wr = run_write_in_range [OF assms(1,2) len]
  show ?thesis
  proof (cases "d \<le> h c")
    case True
    with assms(3-7) wr(1) have "loop_body c st =
        Inr ((progress_bar c st)\<lparr>rng := g2, total_steps := total_steps st + 1,
               theta := new_theta,
               samples := (samples st)[nat (accepted_steps st) := new_theta],
               accepted_steps := accepted_steps st + 1\<rparr>)"
      by (simp add: loop_body_def Let_def)
    with True wr(2) show ?thesis by simp
  next
    case False
    with assms(3-7) have "loop_body c st =
        Inr ((progress_bar c st)\<lparr>rng := g2, total_steps := total_steps st + 1\<rparr>)"
      by (simp add: loop_body_def Let_def)
    with False show ?thesis by simp
  qed
qed

theorem accept_iff_distance_at_most_h_witness:
  "(\<exists>st'. loop_body demo_config (init_state demo_config [0] demo_rng) = Inr st'
      \<and> theta st' = [1] \<and> samples st' = [[1], [0]] \<and> accepted_steps st' = 1)
 \<and> (\<exists>st'. loop_body demo_config (init_state demo_config [5] demo_rng) = Inr st'
      \<and> theta st' = [5] \<and> samples st' = [[0], [0]] \<and> accepted_steps st' = 0)"
proof -
  have fin: "isfinite (Finite 0)" by simp
  have a: "(231 / 100 :: real) \<le> h demo_config" "\<not> h demo_config < (231 / 100 :: real)"
    and b: "h demo_config < (731 / 100 :: real)" "\<not> (731 / 100 :: real) \<le> h demo_config"
    by (simp_all add: demo_config_def)
  have s: "samples (init_state demo_config [0] demo_rng) = [[0], [0]]"
    "samples (init_state demo_config [5] demo_rng) = [[0], [0]]"
    "accepted_steps (init_state demo_config [0] demo_rng) = 0"
    "accepted_steps (init_state demo_config [5] demo_rng) = 0"
    "theta (init_state demo_config [5] demo_rng) = [5]"
    by (simp_all add: init_state_def demo_config_def numeral_2_eq_2)
  from accept_iff_distance_at_most_h [OF demo_first_iteration(1-4) fin demo_first_iteration(5,6)]
    accept_iff_distance_at_most_h [OF demo_far_iteration(1-4) fin demo_far_iteration(5,6)]
  show ?thesis
    unfolding s using a b by simp
qed

text \<open>
  Claim C3. In an iteration whose candidate fails the prior check (the prior returns a
  value that is not finite, such as \<open>-inf\<close>), the candidate is discarded: the state
  after the body has the same \<open>theta\<close>, \<open>samples\<close>, \<open>accepted_steps\<close> and
  \<open>total_steps\<close>; the random source has only been advanced by the draws of the
  proposal, and the result is the same for every simulator and every statistic, so neither
  was called. Consequently every filled row of \<open>samples\<close> during a run, and every row of
  the returned array, is a vector on which the prior is finite.
\<close>

theorem prior_rejected_candidate_is_discarded:
  "(\<forall>st new_theta g1 lp.
       propose_step (theta st) (scale c) (rng st) = (new_theta, g1)
       \<and> prior c new_theta = Inr lp \<and> \<not> isfinite lp \<longrightarrow>
         (\<exists>st'. loop_body c st = Inr st'
            \<and> theta st' = theta st \<and> samples st' = samples st
            \<and> accepted_steps st' = accepted_steps st \<and> total_steps st' = total_steps st
            \<and> rng st' = g1)
       \<and> (\<forall>sim ad. loop_body (c\<lparr>simulate_y := sim, anderson_ksamp := ad\<rparr>) st
                      = loop_body c st))
 \<and> (\<forall>k st i.
       iterate_loop c k (init_state c theta0 g0) = Inr st \<and> i < nat (accepted_steps st) \<longrightarrow>
         (\<exists>lp. prior c (samples st ! i) = Inr lp \<and> isfinite lp))
 \<and> (\<forall>chain st.
       rejection_sampler c theta0 g0 = Some (Inr (chain, st)) \<longrightarrow>
         (\<forall>v \<in> set chain. \<exists>lp. prior c v = Inr lp \<and> isfinite lp))"
proof (intro conjI allI impI ballI)
  fix st :: sampler_state and new_theta g1 lp
  assume a: "propose_step (theta st) (scale c) (rng st) = (new_theta, g1)
       \<and> prior c new_theta = Inr lp \<and> \<not> isfinite lp"
  then have p: "propose_step (theta st) (scale c) (rng st) = (new_theta, g1)"
    and r: "prior c new_theta = Inr lp" "\<not> isfinite lp" by simp_all
  from p r have body: "loop_body c st = Inr ((progress_bar c st)\<lparr>rng := g1\<rparr>)"
    by (rule loop_body_prior_rejected)
  then show "\<exists>st'. loop_body c st = Inr st'
            \<and> theta st' = theta st \<and> samples st' = samples st
            \<and> accepted_steps st' = accepted_steps st \<and> total_steps st' = total_steps st
            \<and> rng st' = g1"
    by simp
  fix sim ad
  from p r have "loop_body (c\<lparr>simulate_y := sim, anderson_ksamp := ad\<rparr>) st
      = Inr ((progress_bar (c\<lparr>simulate_y := sim, anderson_ksamp := ad\<rparr>) st)\<lparr>rng := g1\<rparr>)"
    by (intro loop_body_prior_rejected [where lp = lp]) simp_all
  with body show "loop_body (c\<lparr>simulate_y := sim, anderson_ksamp := ad\<rparr>) st = loop_body c st"
    by simp
next
  fix k st i
  assume "iterate_loop c k (init_state c theta0 g0) = Inr st \<and> i < nat (accepted_steps st)"
  then show "\<exists>lp. prior c (samples st ! i) = Inr lp \<and> isfinite lp"
    using run_rows_prior_valid by blast
next
  fix chain st v
  assume ret: "rejection_sampler c theta0 g0 = Some (Inr (chain, st))" and v: "v \<in> set chain"
  from ret obtain k st0 where run: "iterate_loop c k (init_state c theta0 g0) = Inr st0"
    and fin: "\<not> accepted_steps st0 < n_steps c" and n0: "0 \<le> n_steps c"
    and chain: "chain = samples st0"
    by (rule returned_chain_is_run_state)
  note inv = run_chain [OF run n0]
  from inv(1,3) fin chain have "chain = accepted_thetas c k (init_state c theta0 g0)"
    by simp
  with v show "\<exists>lp. prior c v = Inr lp \<and> isfinite lp"
    using accepted_thetas_accepted by blast
qed

theorem prior_rejected_candidate_is_discarded_witness:
  "(\<exists>st'. loop_body demo_config (init_state demo_config [50] demo_rng) = Inr st'
      \<and> theta st' = [50] \<and> samples st' = [[0], [0]]
      \<and> accepted_steps st' = 0 \<and> total_steps st' = 0
      \<and> rng st' = (\<lambda>i. demo_rng (i + 1)))
 \<and> (\<forall>sim ad. loop_body (demo_config\<lparr>simulate_y := sim, anderson_ksamp := ad\<rparr>)
                  (init_state demo_config [50] demo_rng)
              = loop_body demo_config (init_state demo_config [50] demo_rng))
 \<and> (\<exists>lp. prior demo_config [1] = Inr lp \<and> isfinite lp)
 \<and> (\<exists>lp. prior demo_config [0] = Inr lp \<and> isfinite lp)"
proof -
  note claim = prior_rejected_candidate_is_discarded [of demo_config "[0]" demo_rng]
  have nf: "\<not> isfinite NegInf" by simp
  have s: "samples (init_state demo_config [50] demo_rng) = [[0], [0]]"
    "accepted_steps (init_state demo_config [50] demo_rng) = 0"
    "total_steps (init_state demo_config [50] demo_rng) = 0"
    "theta (init_state demo_config [50] demo_rng) = [50]"
    by (simp_all add: init_state_def demo_config_def numeral_2_eq_2)
  from demo_sampler obtain st where
    ret: "rejection_sampler demo_config [0] demo_rng = Some (Inr ([[1], [0]], st))" by blast
  from claim demo_outside_prior_iteration nf
  have "(\<exists>st'. loop_body demo_config (init_state demo_config [50] demo_rng) = Inr st'
      \<and> theta st' = theta (init_state demo_config [50] demo_rng)
      \<and> samples st' = samples (init_state demo_config [50] demo_rng)
      \<and> accepted_steps st' = accepted_steps (init_state demo_config [50] demo_rng)
      \<and> total_steps st' = total_steps (init_state demo_config [50] demo_rng)
      \<and> rng st' = (\<lambda>i. demo_rng (i + 1)))
    \<and> (\<forall>sim ad. loop_body (demo_config\<lparr>simulate_y := sim, anderson_ksamp := ad\<rparr>)
                  (init_state demo_config [50] demo_rng)
              = loop_body demo_config (init_state demo_config [50] demo_rng))"
    by blast
  moreover from claim ret
  have "\<forall>v \<in> set [[1], [0]]. \<exists>lp. prior demo_config v = Inr lp \<and> isfinite lp"
    by blast
  then have "(\<exists>lp. prior demo_config [1] = Inr lp \<and> isfinite lp)
      \<and> (\<exists>lp. prior demo_config [0] = Inr lp \<and> isfinite lp)"
    by simp
  ultimately show ?thesis unfolding s by blast
qed

text \<open>
  Claim C4. In every state of a run, \<open>0 \<le> accepted_steps \<le> total_steps\<close>; both
  counters are at least what they were in every earlier state of the run; one execution of
  the body adds one to \<open>total_steps\<close> exactly when the candidate passes the prior filter,
  and either leaves \<open>accepted_steps\<close> and \<open>samples\<close> alone or writes the candidate into
  the row \<open>accepted_steps\<close> and adds one to \<open>accepted_steps\<close>; the rows from
  \<open>accepted_steps\<close> on are still the zero rows of the initial array, so that
  \<open>accepted_steps\<close> is the next row to be written.
\<close>

theorem counters_ordered_and_monotone:
  assumes "iterate_loop c k (init_state c theta0 g0) = Inr st"
  shows "0 \<le> accepted_steps st \<and> accepted_steps st \<le> total_steps st
    \<and> (\<forall>j st_j. j \<le> k \<and> iterate_loop c j (init_state c theta0 g0) = Inr st_j \<longrightarrow>
          accepted_steps st_j \<le> accepted_steps st \<and> total_steps st_j \<le> total_steps st)
    \<and> (\<forall>st'. accepted_steps st < n_steps c \<and> loop_body c st = Inr st' \<longrightarrow>
          total_steps st' = total_steps st + (if prior_valid c st then 1 else 0)
        \<and> (accepted_steps st' = accepted_steps st \<and> samples st' = samples st
           \<or> accepted_steps st' = accepted_steps st + 1
             \<and> nat (accepted_steps st) < length (samples st)
             \<and> samples st' = (samples st)[nat (accepted_steps st) := candidate c st]))
    \<and> (\<forall>i. 0 \<le> n_steps c \<and> nat (accepted_steps st) \<le> i \<and> i < nat (n_steps c) \<longrightarrow>
          samples st ! i = replicate (length theta0) 0)"
proof (intro conjI allI impI)
  show "0 \<le> accepted_steps st" "accepted_steps st \<le> total_steps st"
    using run_counters [OF assms] by simp_all
next
  fix j st_j
  assume "j \<le> k \<and> iterate_loop c j (init_state c theta0 g0) = Inr st_j"
  then have "j \<le> k" "iterate_loop c j (init_state c theta0 g0) = Inr st_j" by simp_all
  from run_monotone [OF assms this]
  show "accepted_steps st_j \<le> accepted_steps st" "total_steps st_j \<le> total_steps st"
    by simp_all
next
  fix st'
  assume "accepted_steps st < n_steps c \<and> loop_body c st = Inr st'"
  then have guard: "accepted_steps st < n_steps c" and body: "loop_body c st = Inr st'"
    by simp_all
  note wr = run_write_in_range [OF assms guard length_candidate]
  from loop_body_step [OF body]
  show "total_steps st' = total_steps st + (if prior_valid c st then 1 else 0)"
    by auto
  from loop_body_step [OF body] wr
  show "accepted_steps st' = accepted_steps st \<and> samples st' = samples st
           \<or> accepted_steps st' = accepted_steps st + 1
             \<and> nat (accepted_steps st) < length (samples st)
             \<and> samples st' = (samples st)[nat (accepted_steps st) := candidate c st]"
    by auto
next
  fix i
  assume "0 \<le> n_steps c \<and> nat (accepted_steps st) \<le> i \<and> i < nat (n_steps c)"
  then show "samples st ! i = replicate (length theta0) 0"
    using run_rows_unwritten [OF assms] by simp
qed

theorem counters_ordered_and_monotone_witness:
  "\<exists>st. iterate_loop demo_config (Suc 0) (init_state demo_config [0] demo_rng) = Inr st
     \<and> accepted_steps st = 1 \<and> total_steps st = 1
     \<and> 0 \<le> accepted_steps st \<and> accepted_steps st \<le> total_steps st
     \<and> accepted_steps (init_state demo_config [0] demo_rng) \<le> accepted_steps st
     \<and> total_steps (init_state demo_config [0] demo_rng) \<le> total_steps st
     \<and> (\<exists>st'. loop_body demo_config st = Inr st'
           \<and> total_steps st' = total_steps st
           \<and> accepted_steps st' = accepted_steps st \<and> samples st' = samples st)
     \<and> samples st ! 1 = [0]"
proof -
  from demo_after_one_iteration obtain st st' where
    run: "iterate_loop demo_config (Suc 0) (init_state demo_config [0] demo_rng) = Inr st"
    and st: "accepted_steps st = 1" "total_steps st = 1" "\<not> prior_valid demo_config st"
    and body: "loop_body demo_config st = Inr st'"
    by blast
  note claim = counters_ordered_and_monotone [OF run]
  have n: "n_steps demo_config = 2" by (simp add: demo_config_def)
  have guard: "accepted_steps st < n_steps demo_config" using st n by simp
  have start: "(0::nat) \<le> Suc 0 \<and> iterate_loop demo_config 0 (init_state demo_config [0] demo_rng)
      = Inr (init_state demo_config [0] demo_rng)" by simp
  have row: "0 \<le> n_steps demo_config \<and> nat (accepted_steps st) \<le> 1 \<and> 1 < nat (n_steps demo_config)"
    using st n by simp
  from claim have c1: "0 \<le> accepted_steps st \<and> accepted_steps st \<le> total_steps st" by blast
  from claim start
  have c2: "accepted_steps (init_state demo_config [0] demo_rng) \<le> accepted_steps st
     \<and> total_steps (init_state demo_config [0] demo_rng) \<le> total_steps st" by blast
  from claim guard body
  have "total_steps st' = total_steps st + (if prior_valid demo_config st then 1 else 0)
        \<and> (accepted_steps st' = accepted_steps st \<and> samples st' = samples st
           \<or> accepted_steps st' = accepted_steps st + 1
             \<and> nat (accepted_steps st) < length (samples st)
             \<and> samples st' = (samples st)[nat (accepted_steps st) := candidate demo_config st])"
    by blast
  moreover from loop_body_step [OF body] st(3)
  have "accepted_steps st' = accepted_steps st" by auto
  ultimately have c3: "total_steps st' = total_steps st
     \<and> accepted_steps st' = accepted_steps st \<and> samples st' = samples st"
    using st(3) by auto
  from claim row have c4: "samples st ! 1 = replicate (length [0::real]) 0" by blast
  from run st(1,2) c1 c2 body c3 c4 show ?thesis by auto
qed

text \<open>
  Claim C5. The loop has no iteration cap: \<open>sampling_loop\<close> has no bound on the number
  of iterations, and its only exit is the test \<open>accepted_steps < n_steps\<close>. The claim
  does not hold for every configuration: with \<open>n_steps = 0\<close> the loop is skipped and the
  call ends in the division by zero, and a collaborator that raises ends the call with its
  exception, although no proposal is ever accepted (the counterexample below evaluates
  both). What holds: for a target of at least one sample, when at every state the run reaches the proposal made there is not
  accepted (it fails the prior, or its distance exceeds \<open>h\<close>) and no collaborator
  raises, \<open>accepted_steps\<close> stays at zero in every state of the run and
  \<open>rejection_sampler\<close> never returns.
\<close>

theorem no_acceptance_no_termination:
  assumes "1 \<le> n_steps c"
    and "\<And>k st. iterate_loop c k (init_state c theta0 g0) = Inr st \<Longrightarrow>
           \<not> accepts c st \<and> (\<exists>st'. loop_body c st = Inr st')"
  shows "rejection_sampler c theta0 g0 = None
       \<and> (\<forall>k. \<exists>st. iterate_loop c k (init_state c theta0 g0) = Inr st
                 \<and> accepted_steps st = 0)"
proof -
  let ?init = "init_state c theta0 g0"
  have run: "\<exists>st. iterate_loop c k ?init = Inr st \<and> accepted_steps st = 0" for k
  proof (induction k)
    case 0
    show ?case by (simp add: init_state_def)
  next
    case (Suc k)
    then obtain st where st: "iterate_loop c k ?init = Inr st" "accepted_steps st = 0"
      by blast
    from assms(2) [OF st(1)] obtain st' where rej: "\<not> accepts c st"
      and body: "loop_body c st = Inr st'" by blast
    from loop_body_step [OF body] rej st(2) have "accepted_steps st' = 0" by auto
    moreover have "iterate_loop c (Suc 0) st = Inr st'"
      using st(2) body assms(1) by simp
    then have "iterate_loop c (k + Suc 0) ?init = Inr st'"
      using st(1) by (simp only: iterate_loop_add sum.case)
    ultimately show ?case by auto
  qed
  have "\<not> finished c (iterate_loop c k ?init)" for k
    using run [of k] assms(1) by auto
  then have "rejection_sampler c theta0 g0 = None"
    using assms(1) by (intro never_finished_sampler_None) simp_all
  with run show ?thesis by blast
qed

theorem no_acceptance_no_termination_witness:
  "(rejection_sampler (demo_config\<lparr>prior := \<lambda>th. Inr NegInf\<rparr>) [0] demo_rng = None
     \<and> (\<forall>k. \<exists>st. iterate_loop (demo_config\<lparr>prior := \<lambda>th. Inr NegInf\<rparr>) k
                 (init_state (demo_config\<lparr>prior := \<lambda>th. Inr NegInf\<rparr>) [0] demo_rng) = Inr st
               \<and> accepted_steps st = 0))
 \<and> (rejection_sampler (demo_config\<lparr>prior := \<lambda>th. Inr (Finite 0),
        anderson_ksamp := \<lambda>ys. Inr 100\<rparr>) [0] demo_rng = None)"
proof -
  let ?c = "demo_config\<lparr>prior := \<lambda>th. Inr NegInf\<rparr>"
  let ?d = "demo_config\<lparr>prior := \<lambda>th. Inr (Finite 0), anderson_ksamp := \<lambda>ys. Inr 100\<rparr>"
  have n: "1 \<le> n_steps ?c" "1 \<le> n_steps ?d" by (simp_all add: demo_config_def)
  have c: "\<not> accepts ?c st \<and> (\<exists>st'. loop_body ?c st = Inr st')" for st
    using always_rejecting_prior [of ?c st] by simp
  have d: "\<not> accepts ?d st \<and> (\<exists>st'. loop_body ?d st = Inr st')" for st
    using always_distant [of ?d st] by (simp add: demo_config_def)
  from no_acceptance_no_termination [of ?c "[0]" demo_rng, OF n(1) c]
    no_acceptance_no_termination [of ?d "[0]" demo_rng, OF n(2) d]
  show ?thesis by blast
qed

theorem no_acceptance_no_termination_counterexample:
  "\<not> accepts zero_target_config (init_state zero_target_config [0] demo_rng)
 \<and> rejection_sampler zero_target_config [0] demo_rng = Some (Inl ZeroDivisionError)
 \<and> \<not> accepts raising_config (init_state raising_config [0] demo_rng)
 \<and> rejection_sampler raising_config [0] demo_rng = Some (Inl CollaboratorError)"
proof -
  have a: "\<not> accepts zero_target_config (init_state zero_target_config [0] demo_rng)"
    by (simp add: accepts_def zero_target_config_def rejecting_prior_def split: prod.splits)
  have b: "rejection_sampler zero_target_config [0] demo_rng = Some (Inl ZeroDivisionError)"
    by (rule zero_steps_division_error) (simp add: zero_target_config_def)
  have c: "\<not> accepts raising_config (init_state raising_config [0] demo_rng)"
    by (simp add: accepts_def raising_config_def raising_prior_def split: prod.splits)
  let ?init = "init_state raising_config [0] demo_rng"
  have "iterate_loop raising_config 0 ?init = Inr ?init" by simp
  moreover have "accepted_steps ?init < n_steps raising_config"
    by (simp add: init_state_def raising_config_def demo_config_def)
  moreover have "loop_body raising_config ?init = Inl CollaboratorError"
    by (rule loop_body_prior_raises) (simp add: raising_config_def raising_prior_def)
  ultimately have d: "rejection_sampler raising_config [0] demo_rng = Some (Inl CollaboratorError)"
    by (rule loop_exception_is_fatal)
  from a b c d show ?thesis by blast
qed



text \<open>
  Claim C10. The division \<open>accepted_steps / total_steps\<close> after the loop: when
  \<open>n_steps \<ge> 1\<close> and the loop ends normally, \<open>total_steps \<ge> accepted_steps = n_steps \<ge> 1\<close>,
  so the division is defined and the call returns; when \<open>n_steps = 0\<close> the loop body is
  never executed, \<open>total_steps\<close> is still \<open>0\<close>, and the call fails with a division by
  zero instead of returning an empty array.
\<close>

theorem acceptance_rate_division:
  "(n_steps c = 0 \<longrightarrow>
      sampling_loop c (init_state c theta0 g0) = Some (Inr (init_state c theta0 g0))
    \<and> total_steps (init_state c theta0 g0) = 0
    \<and> rejection_sampler c theta0 g0 = Some (Inl ZeroDivisionError))
 \<and> (\<forall>st. 1 \<le> n_steps c \<and> sampling_loop c (init_state c theta0 g0) = Some (Inr st) \<longrightarrow>
        accepted_steps st = n_steps c \<and> accepted_steps st \<le> total_steps st
      \<and> 1 \<le> total_steps st
      \<and> rejection_sampler c theta0 g0 =
          Some (Inr (samples st, st\<lparr>stdout := stdout st @
            [AcceptanceRate (real_of_int (accepted_steps st) / real_of_int (total_steps st))]\<rparr>)))"
proof (intro conjI allI impI)
  assume n: "n_steps c = 0"
  then show loop: "sampling_loop c (init_state c theta0 g0) = Some (Inr (init_state c theta0 g0))"
    by (subst sampling_loop.simps) (simp add: init_state_def)
  show tot: "total_steps (init_state c theta0 g0) = 0"
    by (simp add: init_state_def)
  from n loop tot show "rejection_sampler c theta0 g0 = Some (Inl ZeroDivisionError)"
    by (simp add: rejection_sampler_def)
next
  fix st
  assume "1 \<le> n_steps c \<and> sampling_loop c (init_state c theta0 g0) = Some (Inr st)"
  then have n: "1 \<le> n_steps c"
    and loop: "sampling_loop c (init_state c theta0 g0) = Some (Inr st)" by simp_all
  from sampling_loop_iterate [OF loop] obtain k where
    run: "iterate_loop c k (init_state c theta0 g0) = Inr st"
    and fin: "\<not> accepted_steps st < n_steps c" by auto
  from n have n0: "0 \<le> n_steps c" by simp
  note inv = run_chain [OF run n0]
  note cnt = run_counters [OF run]
  from fin inv(3) show full: "accepted_steps st = n_steps c" by simp
  from cnt show "accepted_steps st \<le> total_steps st" by simp
  from cnt full n show pos: "1 \<le> total_steps st" by simp
  from loop pos n0 show "rejection_sampler c theta0 g0 =
          Some (Inr (samples st, st\<lparr>stdout := stdout st @
            [AcceptanceRate (real_of_int (accepted_steps st) / real_of_int (total_steps st))]\<rparr>))"
    by (simp add: rejection_sampler_def)
qed

theorem acceptance_rate_division_witness:
  "rejection_sampler (demo_config\<lparr>n_steps := 0\<rparr>) [0] demo_rng = Some (Inl ZeroDivisionError)
 \<and> (\<exists>st. sampling_loop demo_config (init_state demo_config [0] demo_rng) = Some (Inr st)
       \<and> accepted_steps st = 2 \<and> total_steps st = 3
       \<and> accepted_steps st = n_steps demo_config \<and> accepted_steps st \<le> total_steps st
       \<and> 1 \<le> total_steps st
       \<and> rejection_sampler demo_config [0] demo_rng =
            Some (Inr (samples st, st\<lparr>stdout := stdout st @
              [AcceptanceRate (real_of_int (accepted_steps st) / real_of_int (total_steps st))]\<rparr>)))"
proof -
  have z: "n_steps (demo_config\<lparr>n_steps := 0\<rparr>) = 0" by simp
  have n: "1 \<le> n_steps demo_config" by (simp add: demo_config_def)
  from demo_loop obtain st where
    loop: "sampling_loop demo_config (init_state demo_config [0] demo_rng) = Some (Inr st)"
    and st: "accepted_steps st = 2" "total_steps st = 3" by blast
  from acceptance_rate_division [of "demo_config\<lparr>n_steps := 0\<rparr>" "[0]" demo_rng] z
  have a: "rejection_sampler (demo_config\<lparr>n_steps := 0\<rparr>) [0] demo_rng
             = Some (Inl ZeroDivisionError)" by blast
  from acceptance_rate_division [of demo_config "[0]" demo_rng] n loop
  have b: "accepted_steps st = n_steps demo_config \<and> accepted_steps st \<le> total_steps st
       \<and> 1 \<le> total_steps st
       \<and> rejection_sampler demo_config [0] demo_rng =
            Some (Inr (samples st, st\<lparr>stdout := stdout st @
              [AcceptanceRate (real_of_int (accepted_steps st) / real_of_int (total_steps st))]\<rparr>))"
    by blast
  from a b loop st show ?thesis by blast
qed

text \<open>
  Claim C9. A parameter vector whose length is not the four components that \<open>lnprior\<close>
  and \<open>simulate_dataset\<close> unpack makes the call fail at once (the error named
  \<open>DimensionMismatch\<close> is Python's ValueError of the unpacking). In a run started from
  such a vector, the iteration that first calls the failing collaborator raises, and
  \<open>rejection_sampler\<close> ends with that error: nothing is caught and no proposal is retried.
\<close>

theorem wrong_dimension_is_fatal:
  assumes "length theta0 \<noteq> 4"
  shows "lnprior theta0 = Inl DimensionMismatch
       \<and> simulate_dataset theta0 g = Inl DimensionMismatch
       \<and> (\<forall>k st. iterate_loop c k (init_state c theta0 g0) = Inr st
              \<and> accepted_steps st < n_steps c
              \<and> (prior c = lnprior \<or> prior_valid c st \<and> simulate_y c = simulate_dataset) \<longrightarrow>
                loop_body c st = Inl DimensionMismatch
              \<and> rejection_sampler c theta0 g0 = Some (Inl DimensionMismatch))"
proof (intro conjI allI impI)
  show "lnprior theta0 = Inl DimensionMismatch"
    using assms by (rule lnprior_wrong_length)
  show "simulate_dataset theta0 g = Inl DimensionMismatch"
    using assms by (rule simulate_dataset_wrong_length)
next
  fix k st
  assume a: "iterate_loop c k (init_state c theta0 g0) = Inr st
              \<and> accepted_steps st < n_steps c
              \<and> (prior c = lnprior \<or> prior_valid c st \<and> simulate_y c = simulate_dataset)"
  then have run: "iterate_loop c k (init_state c theta0 g0) = Inr st"
    and guard: "accepted_steps st < n_steps c"
    and which: "prior c = lnprior \<or> prior_valid c st \<and> simulate_y c = simulate_dataset"
    by simp_all
  from run_counters [OF run] guard have n0: "0 \<le> n_steps c" by simp
  from run_chain(4) [OF run n0] assms have len: "length (candidate c st) \<noteq> 4"
    by (simp add: length_candidate)
  from which show body: "loop_body c st = Inl DimensionMismatch"
  proof
    assume "prior c = lnprior"
    with len have "prior c (candidate c st) = Inl DimensionMismatch"
      by (simp add: lnprior_wrong_length)
    then show ?thesis by (rule loop_body_prior_raises)
  next
    assume "prior_valid c st \<and> simulate_y c = simulate_dataset"
    with len show ?thesis
      by (intro loop_body_simulate_raises) (simp_all add: simulate_dataset_wrong_length)
  qed
  from run guard body show "rejection_sampler c theta0 g0 = Some (Inl DimensionMismatch)"
    by (rule loop_exception_is_fatal)
qed

theorem wrong_dimension_is_fatal_witness:
  "lnprior [0] = Inl DimensionMismatch
 \<and> simulate_dataset [0] demo_rng = Inl DimensionMismatch
 \<and> loop_body (demo_config\<lparr>prior := lnprior\<rparr>)
      (init_state (demo_config\<lparr>prior := lnprior\<rparr>) [0] demo_rng) = Inl DimensionMismatch
 \<and> rejection_sampler (demo_config\<lparr>prior := lnprior\<rparr>) [0] demo_rng
      = Some (Inl DimensionMismatch)
 \<and> loop_body (demo_config\<lparr>simulate_y := simulate_dataset\<rparr>)
      (init_state (demo_config\<lparr>simulate_y := simulate_dataset\<rparr>) [0] demo_rng)
      = Inl DimensionMismatch
 \<and> rejection_sampler (demo_config\<lparr>simulate_y := simulate_dataset\<rparr>) [0] demo_rng
      = Some (Inl DimensionMismatch)"
proof -
  let ?p = "demo_config\<lparr>prior := lnprior\<rparr>"
  let ?s = "demo_config\<lparr>simulate_y := simulate_dataset\<rparr>"
  have len: "length [0 :: real] \<noteq> 4" by simp
  have p: "iterate_loop ?p 0 (init_state ?p [0] demo_rng) = Inr (init_state ?p [0] demo_rng)
      \<and> accepted_steps (init_state ?p [0] demo_rng) < n_steps ?p
      \<and> (prior ?p = lnprior \<or> prior_valid ?p (init_state ?p [0] demo_rng)
            \<and> simulate_y ?p = simulate_dataset)"
    by (simp add: init_state_def demo_config_def)
  have s: "iterate_loop ?s 0 (init_state ?s [0] demo_rng) = Inr (init_state ?s [0] demo_rng)
      \<and> accepted_steps (init_state ?s [0] demo_rng) < n_steps ?s
      \<and> (prior ?s = lnprior \<or> prior_valid ?s (init_state ?s [0] demo_rng)
            \<and> simulate_y ?s = simulate_dataset)"
    by (simp add: init_state_def demo_config_def prior_valid_def candidate_def
          propose_step_def randn_def demo_rng_0)
  from wrong_dimension_is_fatal [OF len, of demo_rng ?p demo_rng] p
    wrong_dimension_is_fatal [OF len, of demo_rng ?s demo_rng] s
  show ?thesis by blast
qed

text \<open>
  Claim C8. \<open>simulate_dataset\<close> returns on every vector that satisfies the prior, also
  when one of the two sub-draws is empty (\<open>simulate_dataset_returns\<close>,
  \<open>simulate_dataset_empty_component\<close>), but the dataset does not always have the
  cardinality of the observations: both sizes are truncated separately, so a draw can be
  lost (in this model, whenever \<open>fraction * len(x)\<close> is not an integer). The observations have 500 values; at the
  prior-valid vector \<open>[0, 5, 1, 0.3125]\<close> the simulator returns \<open>343 + 156 = 499\<close>.
\<close>

theorem simulate_dataset_loses_a_draw:
  "lnprior [0, 5, 1, 5 / 16] = Inr (Finite 0)
 \<and> length (fst (make_y_obs (\<lambda>i. 0))) = 500
 \<and> (case simulate_dataset [0, 5, 1, 5 / 16] (\<lambda>i. 0) of
       Inl e \<Rightarrow> False
     | Inr (y_sim, g) \<Rightarrow> length y_sim = 499)"
  by (simp add: lnprior_def simulate_dataset_def make_y_obs_def py_int_def len_x_def randn_def
        Let_def)

end
